theory Spec2Isabelle
  imports Main
begin

section \<open>JavaScript values and array primitives used by listService.ts\<close>

text \<open>
  Values that the source compares with \<open>===\<close> against a string literal
  (\<open>configurationService.getValue(key)\<close> is typed \<open>any\<close>).
\<close>

datatype jsval = JUndefined | JNull | JBoolean bool | JNumber int | JString string

text \<open>
  The result of a JavaScript \<open>a && b\<close> chain that ends in a boolean test: it is
  \<open>true\<close>, \<open>false\<close>, or the falsy operand that stopped the chain
  (\<open>undefined\<close> or \<open>null\<close>, both written \<open>None\<close>). Only
  \<open>Some True\<close> is truthy.
\<close>

definition truthy :: "bool option \<Rightarrow> bool" where
  "truthy v = (v = Some True)"

text \<open>
  \<open>Array.prototype.splice(start, deleteCount)\<close> on integer arguments, returning the
  array that is left: a negative start counts from the end, and both arguments are clamped
  to the array.
\<close>

definition splice :: "'a list \<Rightarrow> int \<Rightarrow> int \<Rightarrow> 'a list" where
  "splice xs start deleteCount =
     (let len = int (length xs);
          actualStart = (if start < 0 then max (len + start) 0 else min start len);
          actualDeleteCount = min (max deleteCount 0) (len - actualStart)
      in take (nat actualStart) xs @ drop (nat (actualStart + actualDeleteCount)) xs)"

section \<open>ListService: the registry of list widgets\<close>

text \<open>
  \<open>interface IRegisteredList { widget; extraContextKeys? }\<close>. The entry is an object
  and \<open>indexOf\<close> finds it by identity, so the record carries the identity of its
  allocation in \<open>entry_id\<close>. Widgets are compared with \<open>===\<close>, which is
  equality on the widget type \<open>'w\<close>.
\<close>

record ('w, 'k) IRegisteredList =
  entry_id :: nat
  widget :: 'w
  extraContextKeys :: "'k list option"

text \<open>
  \<open>class ListService\<close>: the fields \<open>lists\<close> and \<open>_lastFocusedWidget\<close>.
  Two further components make the effects of \<open>register\<close> explicit:
  \<open>focusListeners\<close> holds the live subscriptions to the widgets' \<open>onDidFocus\<close>
  events (each made by one \<open>register\<close> call, named by the identity of that call's
  entry, for the widget it closes over), and \<open>allocated\<close> counts the entries created
  so far, which gives the next identity.
\<close>

record ('w, 'k) ListService =
  lists :: "('w, 'k) IRegisteredList list"
  lastFocusedWidget :: "'w option"
  focusListeners :: "(nat \<times> 'w) list"
  allocated :: nat

definition newListService :: "('w, 'k) ListService" where
  "newListService = \<lparr>lists = [], lastFocusedWidget = None, focusListeners = [], allocated = 0\<rparr>"

definition lastFocusedList :: "('w, 'k) ListService \<Rightarrow> 'w option" where
  "lastFocusedList s = lastFocusedWidget s"

datatype error = Error string

text \<open>
  \<open>Array.prototype.indexOf\<close> on \<open>this.lists\<close>: the first index holding the
  given entry object, or \<open>-1\<close>.
\<close>

fun indexOf :: "('w, 'k) IRegisteredList list \<Rightarrow> ('w, 'k) IRegisteredList \<Rightarrow> int" where
  "indexOf [] x = - 1"
| "indexOf (y # ys) x =
     (if entry_id y = entry_id x then 0
      else (let i = indexOf ys x in if i < 0 then - 1 else i + 1))"

text \<open>
  \<open>register(widget, extraContextKeys?)\<close>. The widget's answer to
  \<open>isDOMFocused()\<close> at the time of the call is the last argument. The result is the
  thrown error, or the disposable together with the new state; the disposable is
  represented by the entry it closes over.
\<close>

definition register ::
  "('w, 'k) ListService \<Rightarrow> 'w \<Rightarrow> 'k list option \<Rightarrow> bool \<Rightarrow>
     error + (('w, 'k) IRegisteredList \<times> ('w, 'k) ListService)" where
  "register s w extra isDOMFocused =
     (if list_ex (\<lambda>l. widget l = w) (lists s)
      then Inl (Error ''Cannot register the same widget multiple times'')
      else
        (let registeredList = \<lparr>entry_id = allocated s, widget = w, extraContextKeys = extra\<rparr>;
             s1 = s\<lparr>lists := lists s @ [registeredList]\<rparr>;
             s2 = (if isDOMFocused then s1\<lparr>lastFocusedWidget := Some w\<rparr> else s1);
             s3 = s2\<lparr>focusListeners := focusListeners s2 @ [(allocated s, w)],
                     allocated := Suc (allocated s)\<rparr>
         in Inr (registeredList, s3)))"

text \<open>
  Modelled from the spec: \<open>combinedDisposable\<close> and \<open>toDisposable\<close> (module
  \<open>vs/base/common/lifecycle\<close>) and the subscription that \<open>widget.onDidFocus\<close>
  returns are defined outside \<open>listService.ts\<close>. "The disposal handle, when invoked,
  unsubscribes and removes the entry from the registry": every invocation of the handle
  removes the focus subscription of its \<open>register\<close> call, if it is still there, and
  runs \<open>this.lists.splice(this.lists.indexOf(registeredList), 1)\<close>.
\<close>

definition dispose ::
  "('w, 'k) ListService \<Rightarrow> ('w, 'k) IRegisteredList \<Rightarrow> ('w, 'k) ListService" where
  "dispose s registeredList =
     (let s1 = s\<lparr>focusListeners := filter (\<lambda>p. fst p \<noteq> entry_id registeredList) (focusListeners s)\<rparr>
      in s1\<lparr>lists := splice (lists s1) (indexOf (lists s1) registeredList) 1\<rparr>)"

text \<open>
  Modelled from the spec: the widget's focus-gained notification (\<open>onDidFocus\<close>) is
  an event of the widget toolkit. "Each focus-gained event overwrites last focused": a
  focus-gained event of widget \<open>w\<close> runs every live listener subscribed on \<open>w\<close>,
  and the listener made by \<open>register\<close> is \<open>() => this._lastFocusedWidget = widget\<close>.
\<close>

definition fireDidFocus :: "('w, 'k) ListService \<Rightarrow> 'w \<Rightarrow> ('w, 'k) ListService" where
  "fireDidFocus s w =
     foldl (\<lambda>st p. if snd p = w then st\<lparr>lastFocusedWidget := Some (snd p)\<rparr> else st)
       s (focusListeners s)"

text \<open>
  A history of the service: calls of \<open>register\<close>, invocations of a disposable
  returned earlier (named by its position among the disposables handed out so far), and
  focus-gained events of widgets. A \<open>register\<close> call that throws leaves the state as
  it was; an index that names no disposable handed out so far is no call at all.
\<close>

datatype ('w, 'k) call =
  Register 'w "'k list option" bool
| Dispose nat
| FocusGained 'w

fun step ::
  "('w, 'k) ListService \<times> ('w, 'k) IRegisteredList list \<Rightarrow> ('w, 'k) call \<Rightarrow>
     ('w, 'k) ListService \<times> ('w, 'k) IRegisteredList list" where
  "step (s, hs) (Register w extra isDOMFocused) =
     (case register s w extra isDOMFocused of
        Inl e \<Rightarrow> (s, hs)
      | Inr (h, s') \<Rightarrow> (s', hs @ [h]))"
| "step (s, hs) (Dispose n) = (if n < length hs then (dispose s (hs ! n), hs) else (s, hs))"
| "step (s, hs) (FocusGained w) = (fireDidFocus s w, hs)"

definition run ::
  "('w, 'k) call list \<Rightarrow> ('w, 'k) ListService \<times> ('w, 'k) IRegisteredList list" where
  "run calls = foldl step (newListService, []) calls"

text \<open>
  What every reachable state of the service satisfies: no widget and no entry identity
  occurs twice in \<open>lists\<close>, every identity in use was allocated, and the focus
  subscription of every entry in \<open>lists\<close> is live.
\<close>

definition registryInvariant :: "('w, 'k) ListService \<Rightarrow> bool" where
  "registryInvariant s =
     (distinct (map widget (lists s)) \<and> distinct (map entry_id (lists s)) \<and>
      list_all (\<lambda>l. entry_id l < allocated s \<and> (entry_id l, widget l) \<in> set (focusListeners s)) (lists s))"

text \<open>
  The calls by which some widget gains focus as far as the service can see: a
  \<open>register\<close> call whose widget reports DOM focus, and a focus-gained event.
\<close>

fun gainsFocus :: "('w, 'k) call \<Rightarrow> bool" where
  "gainsFocus (Register w extra isDOMFocused) = isDOMFocused"
| "gainsFocus (Dispose n) = False"
| "gainsFocus (FocusGained w) = True"

text \<open>
  A history with a repeated registration, a disposable invoked twice and a registration
  after disposal.
\<close>

definition history1 :: "(nat, string) call list" where
  "history1 = [Register 1 None False, Register 2 (Some [''k'']) True, Register 1 None True,
     Dispose 0, Dispose 0, Register 1 None False, Dispose 0, FocusGained 1]"

section \<open>Modifier policy: the two settings and their queries\<close>

text \<open>
  \<open>IConfigurationService\<close> is used through \<open>getValue(key)\<close> only; a value of
  this record is the service as it answers at the moment of the call.
\<close>

record IConfigurationService =
  getValue :: "string \<Rightarrow> jsval"

definition multiSelectModifierSettingKey :: string where
  "multiSelectModifierSettingKey = ''workbench.list.multiSelectModifier''"

definition openModeSettingKey :: string where
  "openModeSettingKey = ''workbench.list.openMode''"

definition useAltAsMultipleSelectionModifier :: "IConfigurationService \<Rightarrow> bool" where
  "useAltAsMultipleSelectionModifier configurationService =
     (getValue configurationService multiSelectModifierSettingKey = JString ''alt'')"

definition useSingleClickToOpen :: "IConfigurationService \<Rightarrow> bool" where
  "useSingleClickToOpen configurationService =
     (getValue configurationService openModeSettingKey \<noteq> JString ''doubleClick'')"

text \<open>
  The \<open>'default'\<close> entries of the two properties passed to
  \<open>configurationRegistry.registerConfiguration\<close>.
\<close>

definition registeredDefaults :: "(string \<times> jsval) list" where
  "registeredDefaults =
     [(''workbench.list.multiSelectModifier'', JString ''ctrlCmd''),
      (''workbench.list.openMode'', JString ''singleClick'')]"

text \<open>
  Modelled from the spec: the configuration service itself is an external collaborator.
  A setting the user has not set reads as its registered default ("\<open>ctrlCmd\<close>
  (default)", "\<open>singleClick\<close> (default)"); the argument lists the settings the user
  has set.
\<close>

definition configurationOf :: "(string \<times> jsval) list \<Rightarrow> IConfigurationService" where
  "configurationOf userSettings =
     \<lparr>getValue = (\<lambda>key. case map_of userSettings key of
                            Some v \<Rightarrow> v
                          | None \<Rightarrow> (case map_of registeredDefaults key of
                                       Some v \<Rightarrow> v
                                     | None \<Rightarrow> JUndefined))\<rparr>"

text \<open>Configurations used in the examples below: settings the user has changed.\<close>

definition doubleClickConfiguration :: IConfigurationService where
  "doubleClickConfiguration = configurationOf [(''workbench.list.openMode'', JString ''doubleClick'')]"

definition altConfiguration :: IConfigurationService where
  "altConfiguration = configurationOf [(''workbench.list.multiSelectModifier'', JString ''alt'')]"

definition altAndDoubleClickConfiguration :: IConfigurationService where
  "altAndDoubleClickConfiguration =
     configurationOf [(''workbench.list.multiSelectModifier'', JString ''alt''),
                      (''workbench.list.openMode'', JString ''doubleClick'')]"

section \<open>Open controller and list options\<close>

text \<open>
  The fields of a DOM \<open>UIEvent\<close> that the source reads. \<open>instanceofMouseEvent\<close>
  is the outcome of \<open>event instanceof MouseEvent\<close>; \<open>detail\<close> is the click
  count of a mouse event; \<open>defaultPrevented\<close> is what \<open>preventDefault()\<close> sets.
\<close>

record UIEvent =
  instanceofMouseEvent :: bool
  detail :: int
  ctrlKey :: bool
  metaKey :: bool
  altKey :: bool
  defaultPrevented :: bool

definition preventDefault :: "UIEvent \<Rightarrow> UIEvent" where
  "preventDefault event = event\<lparr>defaultPrevented := True\<rparr>"

text \<open>\<open>OpenController.shouldOpen(event)\<close>, with the controller's configuration service.\<close>

definition shouldOpen :: "IConfigurationService \<Rightarrow> UIEvent \<Rightarrow> bool" where
  "shouldOpen configurationService event =
     (if instanceofMouseEvent event
      then (let isDoubleClick = (detail event = 2)
            in useSingleClickToOpen configurationService \<or> isDoubleClick)
      else True)"

text \<open>Example events: a mouse event with the given click count, and a key press.\<close>

definition mouseClick :: "int \<Rightarrow> UIEvent" where
  "mouseClick n = \<lparr>instanceofMouseEvent = True, detail = n, ctrlKey = False, metaKey = False,
     altKey = False, defaultPrevented = False\<rparr>"

definition keyPress :: UIEvent where
  "keyPress = \<lparr>instanceofMouseEvent = False, detail = 0, ctrlKey = False, metaKey = False,
     altKey = False, defaultPrevented = False\<rparr>"

text \<open>
  A controller object is either an instance of the class of this file, holding its
  configuration service, or an object the caller supplied.
\<close>

datatype 'c IMultipleSelectionController =
  MultipleSelectionController IConfigurationService
| SuppliedMultipleSelectionController 'c

datatype 'c IOpenController =
  OpenController IConfigurationService
| SuppliedOpenController 'c

text \<open>
  \<open>IListOptions\<close>: the three fields that \<open>handleListControllers\<close> reads or
  writes; every other field of the options object is in the record's extension.
  \<open>None\<close> is an absent (\<open>undefined\<close>) field.
\<close>

record ('m, 'o) IListOptions =
  multipleSelectionSupport :: "bool option"
  multipleSelectionController :: "'m IMultipleSelectionController option"
  openController :: "'o IOpenController option"

definition handleListControllers ::
  "('m, 'o, 'z) IListOptions_scheme \<Rightarrow> IConfigurationService \<Rightarrow> ('m, 'o, 'z) IListOptions_scheme" where
  "handleListControllers options configurationService =
     (let options1 =
            (if multipleSelectionSupport options = Some True \<and> multipleSelectionController options = None
             then options\<lparr>multipleSelectionController :=
                            Some (MultipleSelectionController configurationService)\<rparr>
             else options)
      in options1\<lparr>openController := Some (OpenController configurationService)\<rparr>)"

text \<open>
  Example options: a caller that supplies its own open controller, and one that supplies
  its own multiple-selection controller. The extension stands for the remaining fields.
\<close>

definition callerOptions :: "(string, string, string) IListOptions_scheme" where
  "callerOptions =
     \<lparr>multipleSelectionSupport = Some True, multipleSelectionController = None,
      openController = Some (SuppliedOpenController ''callerOpenController''),
      \<dots> = ''ariaLabel''\<rparr>"

definition callerOptionsWithController :: "(string, string, string) IListOptions_scheme" where
  "callerOptionsWithController =
     \<lparr>multipleSelectionSupport = Some True,
      multipleSelectionController = Some (SuppliedMultipleSelectionController ''callerController''),
      openController = None,
      \<dots> = ''ariaLabel''\<rparr>"

section \<open>Workbench wrappers of list, paged list and tree\<close>

text \<open>
  Modelled from the spec: the context key service belongs to another module. A scoped
  context namespace holds "named boolean flags"; \<open>RawContextKey(key, default).bindTo\<close>
  declares the flag with its default value and \<open>set\<close> overwrites it.
\<close>

type_synonym IContextKeyService = "string \<rightharpoonup> bool"

definition RawWorkbenchListFocusContextKey :: "string \<times> bool" where
  "RawWorkbenchListFocusContextKey = (''listFocus'', True)"

definition WorkbenchListSupportsMultiSelectContextKey :: "string \<times> bool" where
  "WorkbenchListSupportsMultiSelectContextKey = (''listSupportsMultiselect'', True)"

definition WorkbenchListDoubleSelection :: "string \<times> bool" where
  "WorkbenchListDoubleSelection = (''listDoubleSelection'', False)"

definition bindTo :: "string \<times> bool \<Rightarrow> IContextKeyService \<Rightarrow> IContextKeyService" where
  "bindTo rawKey target = target(fst rawKey \<mapsto> snd rawKey)"

definition setKey :: "string \<times> bool \<Rightarrow> bool \<Rightarrow> IContextKeyService \<Rightarrow> IContextKeyService" where
  "setKey rawKey v target = target(fst rawKey \<mapsto> v)"

text \<open>
  \<open>createScopedContextKeyService\<close>; the argument is the outcome of
  \<open>widget instanceof List || widget instanceof PagedList\<close>. The scoped service starts
  with no flag of its own.
\<close>

definition createScopedContextKeyService :: "bool \<Rightarrow> IContextKeyService" where
  "createScopedContextKeyService isListOrPagedList =
     (let result = Map.empty;
          result1 = (if isListOrPagedList
                     then bindTo WorkbenchListSupportsMultiSelectContextKey result
                     else result)
      in bindTo RawWorkbenchListFocusContextKey result1)"

text \<open>
  The listeners that the wrappers of this file subscribe to their own selection-change
  event. There is one kind: \<open>() => this.listDoubleSelection.set(this.getSelection().length === 2)\<close>
  (the tree writes \<open>selection && selection.length === 2\<close>, and \<open>getSelection()\<close>
  returns an array, which is truthy).
\<close>

datatype selection_listener = SetListDoubleSelection

text \<open>
  The state of a wrapper that the source reads or writes: the base widget's selection
  (\<open>getSelection()\<close>), the wrapper's scoped context key service, the listeners the
  wrapper has subscribed to the selection-change event, and the cached field
  \<open>_useAltAsMultipleSelectionModifier\<close>. \<open>WorkbenchList\<close> and
  \<open>WorkbenchPagedList\<close> have this state; \<open>WorkbenchTree\<close> extends it with the
  tree's focus (\<open>getFocus()\<close>) and the cached field \<open>_openOnSingleClick\<close>.
\<close>

record 'e Widget =
  selection :: "'e list"
  contextKeyService :: IContextKeyService
  selectionListeners :: "selection_listener list"
  useAltAsMultipleSelectionModifier_cached :: bool

record 'e WorkbenchTree = "'e Widget" +
  focus :: 'e
  openOnSingleClick :: bool

text \<open>
  The constructors, as far as they set this state. The base widget starts with an empty
  selection; the registration with the list service, the styler and the configuration
  listener are subscriptions that do not touch these fields at construction.
\<close>

definition WorkbenchList :: "IConfigurationService \<Rightarrow> 'e Widget" where
  "WorkbenchList configurationService =
     \<lparr>selection = [],
      contextKeyService = bindTo WorkbenchListDoubleSelection (createScopedContextKeyService True),
      selectionListeners = [SetListDoubleSelection],
      useAltAsMultipleSelectionModifier_cached = useAltAsMultipleSelectionModifier configurationService\<rparr>"

definition WorkbenchPagedList :: "IConfigurationService \<Rightarrow> 'e Widget" where
  "WorkbenchPagedList configurationService =
     \<lparr>selection = [],
      contextKeyService = createScopedContextKeyService True,
      selectionListeners = [],
      useAltAsMultipleSelectionModifier_cached = useAltAsMultipleSelectionModifier configurationService\<rparr>"

text \<open>A tree with nothing focused: \<open>getFocus()\<close> is \<open>null\<close>, written \<open>None\<close>.\<close>

definition WorkbenchTree :: "IConfigurationService \<Rightarrow> 'e option WorkbenchTree" where
  "WorkbenchTree configurationService =
     \<lparr>selection = [],
      contextKeyService = bindTo WorkbenchListDoubleSelection (createScopedContextKeyService False),
      selectionListeners = [SetListDoubleSelection],
      useAltAsMultipleSelectionModifier_cached = useAltAsMultipleSelectionModifier configurationService,
      focus = None,
      openOnSingleClick = useSingleClickToOpen configurationService\<rparr>"

definition runSelectionListener ::
  "selection_listener \<Rightarrow> ('e, 'z) Widget_scheme \<Rightarrow> ('e, 'z) Widget_scheme" where
  "runSelectionListener l w =
     (case l of
        SetListDoubleSelection \<Rightarrow>
          w\<lparr>contextKeyService :=
               setKey WorkbenchListDoubleSelection (length (selection w) = 2) (contextKeyService w)\<rparr>)"

text \<open>
  Modelled from the spec: the base widgets are external. A selection change replaces the
  widget's selection and then notifies the subscribers of the selection-change event, in
  the order of their subscription.
\<close>

definition changeSelection :: "('e, 'z) Widget_scheme \<Rightarrow> 'e list \<Rightarrow> ('e, 'z) Widget_scheme" where
  "changeSelection w sel =
     foldl (\<lambda>w' l. runSelectionListener l w') (w\<lparr>selection := sel\<rparr>) (selectionListeners w)"

text \<open>
  \<open>IConfigurationChangeEvent\<close> is used through \<open>affectsConfiguration(key)\<close> only.
\<close>

record IConfigurationChangeEvent =
  affectsConfiguration :: "string \<Rightarrow> bool"

text \<open>
  The configuration listener of \<open>WorkbenchTree.registerListeners\<close>; the first
  argument is the configuration service as it answers when the notification arrives.
\<close>

definition WorkbenchTree_onDidChangeConfiguration ::
  "IConfigurationService \<Rightarrow> IConfigurationChangeEvent \<Rightarrow> 'e WorkbenchTree \<Rightarrow> 'e WorkbenchTree" where
  "WorkbenchTree_onDidChangeConfiguration configurationService e t =
     (let t1 = (if affectsConfiguration e openModeSettingKey
                then t\<lparr>openOnSingleClick := useSingleClickToOpen configurationService\<rparr>
                else t)
      in (if affectsConfiguration e multiSelectModifierSettingKey
          then t1\<lparr>useAltAsMultipleSelectionModifier_cached :=
                     useAltAsMultipleSelectionModifier configurationService\<rparr>
          else t1))"

text \<open>
  Modelled from the spec: the change event is made by the configuration service. A
  notification refreshes a cached field when its "affected-key matches one of the two
  setting identifiers exactly"; the argument lists the keys of the settings that changed.
\<close>

definition settingsChanged :: "string list \<Rightarrow> IConfigurationChangeEvent" where
  "settingsChanged keys = \<lparr>affectsConfiguration = (\<lambda>key. key \<in> set keys)\<rparr>"

text \<open>A tree constructed while every setting has its default.\<close>

definition defaultTree :: "string option WorkbenchTree" where
  "defaultTree = WorkbenchTree (configurationOf [])"

section \<open>ResourceResultsNavigation: from focus and selection events to open events\<close>

text \<open>
  The event payload is typed \<open>any\<close>; the handlers read five of its fields, each of
  which may be absent (\<open>None\<close>). \<open>origin\<close> is compared with string literals;
  \<open>fromFocus\<close>, \<open>preserveFocus\<close> and \<open>focusEditor\<close> are only tested
  for truthiness, so a present field is recorded by its truth value. The payload itself
  may be \<open>undefined\<close> or \<open>null\<close>: the handlers take a \<open>payload option\<close>,
  the \<open>payload\<close> property of the event they receive.
\<close>

record payload =
  origin :: "string option"
  originalEvent :: "UIEvent option"
  fromFocus :: "bool option"
  preserveFocus_payload :: "bool option"
  focusEditor :: "bool option"

text \<open>
  \<open>IEditorOptions\<close> and \<open>IOpenResourceOptions\<close>. \<open>pinned\<close> and
  \<open>sideBySide\<close> receive the value of an \<open>&&\<close> chain, which may be
  \<open>undefined\<close>; \<open>element\<close> is \<open>None\<close> when it was read from an index
  beyond the end of the selection array.
\<close>

record IEditorOptions =
  preserveFocus :: bool
  pinned :: "bool option"
  revealIfVisible :: bool

record 'e IOpenResourceOptions =
  editorOptions :: IEditorOptions
  sideBySide :: "bool option"
  element :: "'e option"
  payload :: "payload option"

text \<open>
  The adapter with its tree. \<open>openOnFocus\<close> is \<open>this.options && this.options.openOnFocus\<close>;
  \<open>openResource\<close> lists the events fired on \<open>_openResource\<close>, oldest first;
  \<open>selectionEvents\<close> lists the selection-change events that \<open>setSelection\<close>
  raised on the tree, with their payloads.
\<close>

record 'e ResourceResultsNavigation =
  tree :: "'e WorkbenchTree"
  openOnFocus :: bool
  openResource :: "'e IOpenResourceOptions list"
  selectionEvents :: "('e list \<times> payload option) list"

text \<open>\<open>array[0]\<close>: \<open>undefined\<close> on an empty array.\<close>

definition index0 :: "'a list \<Rightarrow> 'a option" where
  "index0 xs = (case xs of [] \<Rightarrow> None | x # _ \<Rightarrow> Some x)"

definition onSelection ::
  "'e ResourceResultsNavigation \<Rightarrow> payload option \<Rightarrow> 'e ResourceResultsNavigation" where
  "onSelection nav eventPayload =
     (if truthy (case eventPayload of None \<Rightarrow> None | Some p \<Rightarrow> fromFocus p) then nav
      else
        (let originalEvent = (case eventPayload of None \<Rightarrow> None | Some p \<Rightarrow> originalEvent p);
             isMouseEvent = (case eventPayload of None \<Rightarrow> None | Some p \<Rightarrow> Some (origin p = Some ''mouse''));
             isDoubleClick =
               (if \<not> truthy isMouseEvent then isMouseEvent
                else (case originalEvent of None \<Rightarrow> None | Some ev \<Rightarrow> Some (detail ev = 2)))
         in if \<not> truthy isMouseEvent \<or> openOnSingleClick (tree nav) \<or> truthy isDoubleClick
            then
              (let payload1 =
                     (if truthy isDoubleClick \<and> originalEvent \<noteq> None
                      then map_option (\<lambda>p. p\<lparr>originalEvent := map_option preventDefault originalEvent\<rparr>) eventPayload
                      else eventPayload);
                   isFromKeyboard =
                     (case eventPayload of None \<Rightarrow> None | Some p \<Rightarrow> Some (origin p = Some ''keyboard''));
                   sideBySide =
                     (case originalEvent of
                        None \<Rightarrow> None
                      | Some ev \<Rightarrow> Some (ctrlKey ev \<or> metaKey ev \<or> altKey ev));
                   preserveFocus =
                     (\<not> ((truthy isFromKeyboard \<and>
                            (eventPayload = None \<or> \<not> truthy (case eventPayload of None \<Rightarrow> None | Some p \<Rightarrow> preserveFocus_payload p)))
                          \<or> truthy isDoubleClick
                          \<or> truthy (case eventPayload of None \<Rightarrow> None | Some p \<Rightarrow> focusEditor p)))
               in nav\<lparr>openResource := openResource nav @
                     [\<lparr>editorOptions =
                         \<lparr>preserveFocus = preserveFocus, pinned = isDoubleClick, revealIfVisible = True\<rparr>,
                       sideBySide = sideBySide,
                       element = index0 (selection (tree nav)),
                       payload = payload1\<rparr>]\<rparr>)
            else nav))"

text \<open>
  Modelled from the spec: \<open>Tree.setSelection(elements, eventPayload)\<close> is a method of
  the base tree. It makes the given elements the selection and raises the
  selection-change event with the given payload ("the resulting selection-change
  handler"): the tree's own listeners run, then the adapter's \<open>onSelection\<close>, which
  the adapter subscribes unconditionally.
\<close>

definition setSelection ::
  "'e ResourceResultsNavigation \<Rightarrow> 'e list \<Rightarrow> payload option \<Rightarrow> 'e ResourceResultsNavigation" where
  "setSelection nav elements eventPayload =
     onSelection
       (nav\<lparr>tree := changeSelection (tree nav) elements,
            selectionEvents := selectionEvents nav @ [(elements, eventPayload)]\<rparr>)
       eventPayload"

text \<open>The object literal \<open>{ fromFocus: true }\<close>.\<close>

definition fromFocusPayload :: payload where
  "fromFocusPayload =
     \<lparr>origin = None, originalEvent = None, fromFocus = Some True,
      preserveFocus_payload = None, focusEditor = None\<rparr>"

definition onFocus ::
  "'e ResourceResultsNavigation \<Rightarrow> payload option \<Rightarrow> 'e ResourceResultsNavigation" where
  "onFocus nav eventPayload =
     (let element = focus (tree nav);
          nav1 = setSelection nav [element] (Some fromFocusPayload);
          originalEvent = (case eventPayload of None \<Rightarrow> None | Some p \<Rightarrow> originalEvent p);
          isMouseEvent = (case eventPayload of None \<Rightarrow> None | Some p \<Rightarrow> Some (origin p = Some ''mouse''));
          isDoubleClick =
            (if \<not> truthy isMouseEvent then isMouseEvent
             else (case originalEvent of None \<Rightarrow> None | Some ev \<Rightarrow> Some (detail ev = 2)))
      in if \<not> truthy isMouseEvent \<or> openOnSingleClick (tree nav1) \<or> truthy isDoubleClick
         then nav1\<lparr>openResource := openResource nav1 @
                [\<lparr>editorOptions = \<lparr>preserveFocus = True, pinned = Some False, revealIfVisible = True\<rparr>,
                  sideBySide = Some False,
                  element = Some element,
                  payload = eventPayload\<rparr>]\<rparr>
         else nav1)"

text \<open>
  \<open>registerListeners\<close>: the focus handler is subscribed only with the option
  \<open>openOnFocus\<close>, the selection handler always.
\<close>

definition didChangeFocus ::
  "'e ResourceResultsNavigation \<Rightarrow> payload option \<Rightarrow> 'e ResourceResultsNavigation" where
  "didChangeFocus nav eventPayload = (if openOnFocus nav then onFocus nav eventPayload else nav)"

definition didChangeSelection ::
  "'e ResourceResultsNavigation \<Rightarrow> payload option \<Rightarrow> 'e ResourceResultsNavigation" where
  "didChangeSelection nav eventPayload = onSelection nav eventPayload"

subsection \<open>The conditions on a payload that the properties below speak of\<close>

text \<open>
  These predicates state the conditions in words of the payload's fields; the handlers
  above do not use them. The from-focus marker, the origin of the event, a mouse
  double-click (mouse origin and an originating event with click count 2), a modifier key
  held on the originating event, the explicit preserve-focus and focus-editor
  instructions, the open gate, and the payload whose originating event has its default
  action prevented.
\<close>

definition carriesFromFocus :: "payload option \<Rightarrow> bool" where
  "carriesFromFocus eventPayload =
     (case eventPayload of None \<Rightarrow> False | Some p \<Rightarrow> fromFocus p = Some True)"

definition mouseOrigin :: "payload option \<Rightarrow> bool" where
  "mouseOrigin eventPayload =
     (case eventPayload of None \<Rightarrow> False | Some p \<Rightarrow> origin p = Some ''mouse'')"

definition keyboardOrigin :: "payload option \<Rightarrow> bool" where
  "keyboardOrigin eventPayload =
     (case eventPayload of None \<Rightarrow> False | Some p \<Rightarrow> origin p = Some ''keyboard'')"

definition mouseDoubleClick :: "payload option \<Rightarrow> bool" where
  "mouseDoubleClick eventPayload =
     (case eventPayload of
        None \<Rightarrow> False
      | Some p \<Rightarrow> origin p = Some ''mouse'' \<and>
          (case originalEvent p of None \<Rightarrow> False | Some ev \<Rightarrow> detail ev = 2))"

definition modifierHeld :: "payload option \<Rightarrow> bool" where
  "modifierHeld eventPayload =
     (case eventPayload of
        None \<Rightarrow> False
      | Some p \<Rightarrow>
          (case originalEvent p of None \<Rightarrow> False | Some ev \<Rightarrow> ctrlKey ev \<or> metaKey ev \<or> altKey ev))"

definition preserveFocusInstruction :: "payload option \<Rightarrow> bool" where
  "preserveFocusInstruction eventPayload =
     (case eventPayload of None \<Rightarrow> False | Some p \<Rightarrow> preserveFocus_payload p = Some True)"

definition focusEditorInstruction :: "payload option \<Rightarrow> bool" where
  "focusEditorInstruction eventPayload =
     (case eventPayload of None \<Rightarrow> False | Some p \<Rightarrow> focusEditor p = Some True)"

definition openGate :: "'e WorkbenchTree \<Rightarrow> payload option \<Rightarrow> bool" where
  "openGate t eventPayload =
     (\<not> mouseOrigin eventPayload \<or> openOnSingleClick t \<or> mouseDoubleClick eventPayload)"

definition withDefaultPrevented :: "payload option \<Rightarrow> payload option" where
  "withDefaultPrevented eventPayload =
     map_option (\<lambda>p. p\<lparr>originalEvent := map_option preventDefault (originalEvent p)\<rparr>) eventPayload"

text \<open>
  Example state: a tree with two selected elements and the focus on the second, under a
  given configuration, with an adapter that has fired nothing yet; and example payloads.
\<close>

definition exampleTree :: "IConfigurationService \<Rightarrow> string option WorkbenchTree" where
  "exampleTree configurationService =
     changeSelection ((WorkbenchTree configurationService)\<lparr>focus := Some ''b.ts''\<rparr>)
       [Some ''a.ts'', Some ''b.ts'']"

definition exampleNavigation :: "IConfigurationService \<Rightarrow> string option ResourceResultsNavigation" where
  "exampleNavigation configurationService =
     \<lparr>tree = exampleTree configurationService, openOnFocus = True, openResource = [],
      selectionEvents = []\<rparr>"

definition mousePayload :: "int \<Rightarrow> bool \<Rightarrow> payload" where
  "mousePayload clicks ctrl =
     \<lparr>origin = Some ''mouse'',
      originalEvent = Some \<lparr>instanceofMouseEvent = True, detail = clicks, ctrlKey = ctrl,
        metaKey = False, altKey = False, defaultPrevented = False\<rparr>,
      fromFocus = None, preserveFocus_payload = None, focusEditor = None\<rparr>"

definition keyboardPayload :: payload where
  "keyboardPayload =
     \<lparr>origin = Some ''keyboard'', originalEvent = None, fromFocus = None,
      preserveFocus_payload = None, focusEditor = None\<rparr>"

section \<open>Properties of the registry\<close>

lemma set_splice_subset: "set (splice xs i n) \<subseteq> set xs"
  unfolding splice_def Let_def
  by (auto dest: in_set_takeD in_set_dropD)

lemma distinct_take_drop:
  "distinct ys \<Longrightarrow> a \<le> b \<Longrightarrow> distinct (take a ys @ drop b ys)"
  using set_take_disj_set_drop_if_distinct [of ys a b] by simp

lemma distinct_map_take_drop:
  "distinct (map f xs) \<Longrightarrow> a \<le> b \<Longrightarrow> distinct (map f (take a xs @ drop b xs))"
  using distinct_take_drop [of "map f xs" a b] by (simp add: take_map drop_map)

lemma distinct_map_splice:
  "distinct (map f xs) \<Longrightarrow> distinct (map f (splice xs i n))"
  unfolding splice_def Let_def
  by (rule distinct_map_take_drop) auto

lemma indexOf_bounds: "- 1 \<le> indexOf xs x \<and> indexOf xs x < int (length xs)"
  by (induction xs) (auto simp: Let_def)

lemma indexOf_absent: "(indexOf xs x < 0) = (\<forall>y\<in>set xs. entry_id y \<noteq> entry_id x)"
  using indexOf_bounds [of _ x]
  by (induction xs) (auto simp: Let_def)

lemma indexOf_nth: "0 \<le> indexOf xs x \<Longrightarrow> entry_id (xs ! nat (indexOf xs x)) = entry_id x"
proof (induction xs)
  case Nil
  then show ?case by simp
next
  case (Cons y ys)
  show ?case
  proof (cases "entry_id y = entry_id x")
    case True
    then show ?thesis by simp
  next
    case False
    with Cons.prems have ge: "0 \<le> indexOf ys x"
      by (simp add: Let_def split: if_splits)
    with False Cons.IH show ?thesis
      by (simp add: Let_def nat_add_distrib)
  qed
qed

lemma splice_at_index:
  "0 \<le> i \<Longrightarrow> i < int (length xs) \<Longrightarrow> splice xs i 1 = take (nat i) xs @ drop (Suc (nat i)) xs"
  unfolding splice_def Let_def
  by (auto simp: nat_add_distrib min_def max_def)

lemma splice_minus_one: "splice xs (- 1) 1 = butlast xs"
  unfolding splice_def Let_def
  by (cases xs rule: rev_cases) (auto simp: min_def max_def nat_diff_distrib)

lemma nth_not_in_rest:
  "distinct ys \<Longrightarrow> n < length ys \<Longrightarrow> ys ! n \<notin> set (take n ys @ drop (Suc n) ys)"
proof -
  assume d: "distinct ys" and n: "n < length ys"
  have "ys = take n ys @ ys ! n # drop (Suc n) ys"
    using n by (rule id_take_nth_drop)
  then have "distinct (take n ys @ ys ! n # drop (Suc n) ys)"
    using d by simp
  then show ?thesis by auto
qed

lemma splice_indexOf_removes:
  assumes "distinct (map entry_id xs)"
  shows "\<forall>l\<in>set (splice xs (indexOf xs h) 1). entry_id l \<noteq> entry_id h"
proof (cases "indexOf xs h < 0")
  case True
  then have "\<forall>y\<in>set xs. entry_id y \<noteq> entry_id h"
    by (simp add: indexOf_absent)
  then show ?thesis
    using set_splice_subset [of xs "indexOf xs h" 1] by blast
next
  case False
  define n where "n = nat (indexOf xs h)"
  have ge: "0 \<le> indexOf xs h" using False by simp
  have lt: "n < length xs"
    using indexOf_bounds [of xs h] ge by (simp add: n_def)
  have sp: "splice xs (indexOf xs h) 1 = take n xs @ drop (Suc n) xs"
    using splice_at_index [of "indexOf xs h" xs] ge indexOf_bounds [of xs h]
    by (simp add: n_def)
  have "map entry_id xs ! n \<notin> set (take n (map entry_id xs) @ drop (Suc n) (map entry_id xs))"
    using assms lt by (intro nth_not_in_rest) simp_all
  moreover have "map entry_id xs ! n = entry_id h"
    using indexOf_nth [OF ge] lt by (simp add: n_def)
  ultimately have "entry_id h \<notin> entry_id ` set (take n xs @ drop (Suc n) xs)"
    by (simp add: take_map drop_map image_Un)
  then have "\<forall>l\<in>set (take n xs @ drop (Suc n) xs). entry_id l \<noteq> entry_id h"
    by (metis imageI)
  then show ?thesis
    by (simp only: sp)
qed

lemma focus_fold_frame:
  "lists (foldl (\<lambda>st p. if snd p = w then st\<lparr>lastFocusedWidget := Some (snd p)\<rparr> else st) s ps) = lists s \<and>
   focusListeners (foldl (\<lambda>st p. if snd p = w then st\<lparr>lastFocusedWidget := Some (snd p)\<rparr> else st) s ps) = focusListeners s \<and>
   allocated (foldl (\<lambda>st p. if snd p = w then st\<lparr>lastFocusedWidget := Some (snd p)\<rparr> else st) s ps) = allocated s"
  by (induction ps arbitrary: s) simp_all

lemma focus_fold_last:
  "lastFocusedWidget (foldl (\<lambda>st p. if snd p = w then st\<lparr>lastFocusedWidget := Some (snd p)\<rparr> else st) s ps) =
     (if w \<in> snd ` set ps then Some w else lastFocusedWidget s)"
  by (induction ps arbitrary: s) auto

lemma fireDidFocus_frame:
  "lists (fireDidFocus s w) = lists s \<and> focusListeners (fireDidFocus s w) = focusListeners s \<and>
   allocated (fireDidFocus s w) = allocated s"
  unfolding fireDidFocus_def by (rule focus_fold_frame)

lemma fireDidFocus_last:
  "lastFocusedWidget (fireDidFocus s w) =
     (if w \<in> snd ` set (focusListeners s) then Some w else lastFocusedWidget s)"
  unfolding fireDidFocus_def by (rule focus_fold_last)

lemma invariant_new: "registryInvariant newListService"
  by (simp add: registryInvariant_def newListService_def)

lemma invariant_fireDidFocus: "registryInvariant s \<Longrightarrow> registryInvariant (fireDidFocus s w)"
  by (simp add: registryInvariant_def fireDidFocus_frame)

lemma invariant_register:
  assumes "registryInvariant s" and "register s w extra f = Inr (h, s')"
  shows "registryInvariant s'"
proof -
  have fresh: "\<forall>l\<in>set (lists s). widget l \<noteq> w"
    using assms(2) by (auto simp: register_def list_ex_iff split: if_splits)
  have below: "\<forall>l\<in>set (lists s). entry_id l < allocated s"
    using assms(1) by (simp add: registryInvariant_def list_all_iff)
  have s': "lists s' = lists s @ [\<lparr>entry_id = allocated s, widget = w, extraContextKeys = extra\<rparr>]"
           "focusListeners s' = focusListeners s @ [(allocated s, w)]"
           "allocated s' = Suc (allocated s)"
    using assms(2) by (auto simp: register_def Let_def split: if_splits)
  show ?thesis
    using assms(1) fresh below
    by (auto simp: registryInvariant_def s' list_all_iff)
qed

lemma invariant_dispose:
  assumes "registryInvariant s"
  shows "registryInvariant (dispose s h)"
proof -
  let ?xs = "splice (lists s) (indexOf (lists s) h) 1"
  have l: "lists (dispose s h) = ?xs"
    and f: "focusListeners (dispose s h) = filter (\<lambda>p. fst p \<noteq> entry_id h) (focusListeners s)"
    and a: "allocated (dispose s h) = allocated s"
    by (simp_all add: dispose_def Let_def)
  have sub: "set ?xs \<subseteq> set (lists s)" by (rule set_splice_subset)
  have gone: "\<forall>l\<in>set ?xs. entry_id l \<noteq> entry_id h"
    using assms by (intro splice_indexOf_removes) (simp add: registryInvariant_def)
  have "distinct (map widget ?xs)" "distinct (map entry_id ?xs)"
    using assms by (simp_all add: registryInvariant_def distinct_map_splice)
  moreover have "\<forall>l\<in>set ?xs. entry_id l < allocated s \<and> (entry_id l, widget l) \<in> set (focusListeners s)"
    using assms sub by (auto simp: registryInvariant_def list_all_iff)
  ultimately show ?thesis
    using gone by (simp add: registryInvariant_def l f a list_all_iff)
qed

lemma invariant_step:
  "registryInvariant (fst st) \<Longrightarrow> registryInvariant (fst (step st c))"
proof (cases st)
  case (Pair s hs)
  assume inv: "registryInvariant (fst st)"
  show ?thesis
  proof (cases c)
    case (Register w extra f)
    then show ?thesis
      using inv Pair invariant_register [of s w extra f]
      by (auto split: sum.splits)
  next
    case (Dispose n)
    then show ?thesis
      using inv Pair by (simp add: invariant_dispose)
  next
    case (FocusGained w)
    then show ?thesis
      using inv Pair by (simp add: invariant_fireDidFocus)
  qed
qed

lemma invariant_foldl_step:
  "registryInvariant (fst st) \<Longrightarrow> registryInvariant (fst (foldl step st calls))"
  by (induction calls arbitrary: st) (simp_all add: invariant_step)

lemma invariant_run: "registryInvariant (fst (run calls))"
  unfolding run_def by (rule invariant_foldl_step) (simp add: invariant_new)

lemma run_snoc: "run (calls @ [c]) = step (run calls) c"
  by (simp add: run_def)

lemma run_append: "run (calls @ cs) = foldl step (run calls) cs"
  by (simp add: run_def)

lemma register_throws:
  "list_ex (\<lambda>l. widget l = w) (lists s) \<Longrightarrow>
     register s w extra f = Inl (Error ''Cannot register the same widget multiple times'')"
  by (simp add: register_def)

lemma register_succeeds:
  "\<not> list_ex (\<lambda>l. widget l = w) (lists s) \<Longrightarrow>
     \<exists>h s'. register s w extra f = Inr (h, s') \<and> widget h = w \<and>
       lastFocusedWidget s' = (if f then Some w else lastFocusedWidget s)"
  by (simp add: register_def Let_def)

lemma indexOf_present:
  "h \<in> set xs \<Longrightarrow> 0 \<le> indexOf xs h"
  using indexOf_absent [of xs h] by force

lemma take_drop_indexOf:
  "distinct (map entry_id xs) \<Longrightarrow> h \<in> set xs \<Longrightarrow>
     take (nat (indexOf xs h)) xs @ drop (Suc (nat (indexOf xs h))) xs = remove1 h xs"
proof (induction xs)
  case Nil
  then show ?case by simp
next
  case (Cons y ys)
  show ?case
  proof (cases "entry_id y = entry_id h")
    case True
    have "h \<notin> set ys"
      using Cons.prems(1) True by force
    with Cons.prems(2) have "y = h" by simp
    then show ?thesis by simp
  next
    case False
    then have neq: "h \<noteq> y" by auto
    with Cons.prems(2) have mem: "h \<in> set ys" by simp
    have ge: "0 \<le> indexOf ys h" using mem by (rule indexOf_present)
    have "take (nat (indexOf ys h)) ys @ drop (Suc (nat (indexOf ys h))) ys = remove1 h ys"
      using Cons.IH Cons.prems(1) mem by simp
    then show ?thesis
      using False neq ge by (simp add: Let_def nat_add_distrib)
  qed
qed

lemma splice_indexOf_present:
  assumes "distinct (map entry_id xs)" and "h \<in> set xs"
  shows "splice xs (indexOf xs h) 1 = remove1 h xs"
proof -
  have "0 \<le> indexOf xs h" using assms(2) by (rule indexOf_present)
  then have "splice xs (indexOf xs h) 1 =
      take (nat (indexOf xs h)) xs @ drop (Suc (nat (indexOf xs h))) xs"
    using indexOf_bounds [of xs h] by (intro splice_at_index) simp_all
  then show ?thesis
    using assms by (simp add: take_drop_indexOf)
qed

lemma dispose_lastFocused: "lastFocusedWidget (dispose s h) = lastFocusedWidget s"
  by (simp add: dispose_def Let_def)

lemma quiet_step:
  "\<not> gainsFocus c \<Longrightarrow> lastFocusedWidget (fst (step st c)) = lastFocusedWidget (fst st)"
proof (cases st)
  case (Pair s hs)
  assume q: "\<not> gainsFocus c"
  show ?thesis
  proof (cases c)
    case (Register w extra f)
    with q have "\<not> f" by simp
    then show ?thesis
      using Pair Register
      by (auto simp: register_def Let_def split: sum.splits if_splits)
  next
    case (Dispose n)
    then show ?thesis using Pair by (simp add: dispose_lastFocused)
  next
    case (FocusGained w)
    with q show ?thesis by simp
  qed
qed

lemma quiet_foldl_step:
  "\<not> list_ex gainsFocus cs \<Longrightarrow>
     lastFocusedWidget (fst (foldl step st cs)) = lastFocusedWidget (fst st)"
  by (induction cs arbitrary: st) (simp_all add: quiet_step)

text \<open>
  Claim C5. After every sequence of \<open>register\<close> calls, disposals and focus events,
  no two entries of the registry hold the same widget. A \<open>register\<close> call with a
  widget that has an entry throws, and the state of the service (entries and last-focused
  reference) after the throwing call is the state before it.
\<close>

theorem register_never_duplicates:
  "distinct (map widget (lists (fst (run calls)))) \<and>
   (list_ex (\<lambda>l. widget l = w) (lists s) \<longrightarrow>
      register s w extra isDOMFocused = Inl (Error ''Cannot register the same widget multiple times'') \<and>
      step (s, hs) (Register w extra isDOMFocused) = (s, hs))"
  using invariant_run [of calls]
  by (simp add: registryInvariant_def register_throws)

text \<open>The claim at a concrete history and at a repeated registration of widget 1.\<close>

theorem register_never_duplicates_witness:
  "distinct (map widget (lists (fst (run history1)))) \<and>
   list_ex (\<lambda>l. widget l = (1::nat)) (lists (fst (run [Register 1 (None :: string list option) False]))) \<and>
   register (fst (run [Register (1::nat) (None :: string list option) False])) 1 None True =
     Inl (Error ''Cannot register the same widget multiple times'') \<and>
   step (fst (run [Register (1::nat) (None :: string list option) False]), []) (Register 1 None True) =
     (fst (run [Register 1 None False]), [])"
proof -
  have r: "list_ex (\<lambda>l. widget l = (1::nat)) (lists (fst (run [Register 1 (None :: string list option) False])))"
    by (simp add: run_def register_def newListService_def Let_def)
  show ?thesis
    using r register_never_duplicates [of history1 "1::nat" "fst (run [Register (1::nat) (None :: string list option) False])" None True "[]"]
    by simp
qed

text \<open>
  Claim C6. A \<open>register\<close> call for a widget that has no entry and reports DOM
  focus returns with this widget as the last-focused one, with no focus event involved.
  In every reachable state, a focus-gained event of a widget that has an entry makes that
  widget the last-focused one, whatever the reference held before.
\<close>

theorem focus_last_writer_wins:
  "(\<not> list_ex (\<lambda>l. widget l = w) (lists s) \<longrightarrow>
      (\<exists>h s'. register s w extra True = Inr (h, s') \<and> lastFocusedList s' = Some w)) \<and>
   (list_ex (\<lambda>l. widget l = w') (lists (fst (run calls))) \<longrightarrow>
      lastFocusedList (fireDidFocus (fst (run calls)) w') = Some w')"
proof (intro conjI impI)
  assume "\<not> list_ex (\<lambda>l. widget l = w) (lists s)"
  then show "\<exists>h s'. register s w extra True = Inr (h, s') \<and> lastFocusedList s' = Some w"
    by (simp add: register_def Let_def lastFocusedList_def)
next
  assume reg: "list_ex (\<lambda>l. widget l = w') (lists (fst (run calls)))"
  then obtain l where l: "l \<in> set (lists (fst (run calls)))" "widget l = w'"
    by (auto simp: list_ex_iff)
  have "(entry_id l, widget l) \<in> set (focusListeners (fst (run calls)))"
    using invariant_run [of calls] l(1) by (simp add: registryInvariant_def list_all_iff)
  then have "w' \<in> snd ` set (focusListeners (fst (run calls)))"
    using l(2) by force
  then show "lastFocusedList (fireDidFocus (fst (run calls)) w') = Some w'"
    by (simp add: lastFocusedList_def fireDidFocus_last)
qed

text \<open>The claim at the registration of a focused widget 2 and a later focus of widget 1.\<close>

theorem focus_last_writer_wins_witness:
  "\<not> list_ex (\<lambda>l. widget l = (2::nat)) (lists (fst (run [Register 1 (None :: string list option) False]))) \<and>
   (\<exists>h s'. register (fst (run [Register (1::nat) (None :: string list option) False])) 2 None True = Inr (h, s') \<and>
      lastFocusedList s' = Some 2) \<and>
   list_ex (\<lambda>l. widget l = (1::nat))
     (lists (fst (run [Register 1 (None :: string list option) False, Register 2 None True]))) \<and>
   lastFocusedList (fst (run [Register (1::nat) (None :: string list option) False, Register 2 None True])) = Some 2 \<and>
   lastFocusedList (fireDidFocus (fst (run [Register (1::nat) (None :: string list option) False, Register 2 None True])) 1) = Some 1"
proof -
  have a: "\<not> list_ex (\<lambda>l. widget l = (2::nat)) (lists (fst (run [Register 1 (None :: string list option) False])))"
    by (simp add: run_def register_def newListService_def Let_def)
  have b: "list_ex (\<lambda>l. widget l = (1::nat))
     (lists (fst (run [Register 1 (None :: string list option) False, Register 2 None True])))"
    by (simp add: run_def register_def newListService_def Let_def)
  have c: "lastFocusedList (fst (run [Register (1::nat) (None :: string list option) False, Register 2 None True])) = Some 2"
    by (simp add: run_def register_def newListService_def Let_def lastFocusedList_def)
  show ?thesis
    using a b c focus_last_writer_wins [of "2::nat" "fst (run [Register (1::nat) (None :: string list option) False])" None "1::nat"
        "[Register (1::nat) (None :: string list option) False, Register 2 None True]"]
    by simp
qed

text \<open>
  Claim C7. Invoking a disposable that \<open>register\<close> returned leaves no entry with
  the identity of that call's entry in the registry (when the entry was there, exactly it
  is removed), leaves no focus subscription of that call, and does not change the
  last-focused reference: \<open>lastFocusedList\<close> returns what it returned before, and
  keeps doing so through every later sequence of calls in which no widget gains focus.
\<close>

theorem dispose_keeps_lastFocused:
  assumes "run calls = (s, hs)" and "n < length hs"
  shows "run (calls @ [Dispose n]) = (dispose s (hs ! n), hs) \<and>
    (\<forall>l\<in>set (lists (dispose s (hs ! n))). entry_id l \<noteq> entry_id (hs ! n)) \<and>
    (hs ! n \<in> set (lists s) \<longrightarrow> lists (dispose s (hs ! n)) = remove1 (hs ! n) (lists s)) \<and>
    (\<forall>p\<in>set (focusListeners (dispose s (hs ! n))). fst p \<noteq> entry_id (hs ! n)) \<and>
    lastFocusedList (dispose s (hs ! n)) = lastFocusedList s \<and>
    (\<not> list_ex gainsFocus cs \<longrightarrow>
       lastFocusedList (fst (run (calls @ Dispose n # cs))) = lastFocusedList s)"
proof -
  have inv: "registryInvariant s"
    using invariant_run [of calls] assms(1) by simp
  then have d: "distinct (map entry_id (lists s))"
    by (simp add: registryInvariant_def)
  have r: "run (calls @ [Dispose n]) = (dispose s (hs ! n), hs)"
    using assms by (simp add: run_snoc)
  have gone: "\<forall>l\<in>set (lists (dispose s (hs ! n))). entry_id l \<noteq> entry_id (hs ! n)"
    using splice_indexOf_removes [OF d, of "hs ! n"] by (simp add: dispose_def Let_def)
  have exact: "hs ! n \<in> set (lists s) \<longrightarrow> lists (dispose s (hs ! n)) = remove1 (hs ! n) (lists s)"
    using splice_indexOf_present [OF d, of "hs ! n"] by (simp add: dispose_def Let_def)
  have unsub: "\<forall>p\<in>set (focusListeners (dispose s (hs ! n))). fst p \<noteq> entry_id (hs ! n)"
    by (simp add: dispose_def Let_def)
  have keep: "lastFocusedList (dispose s (hs ! n)) = lastFocusedList s"
    by (simp add: lastFocusedList_def dispose_lastFocused)
  have later: "\<not> list_ex gainsFocus cs \<longrightarrow>
       lastFocusedList (fst (run (calls @ Dispose n # cs))) = lastFocusedList s"
  proof
    assume q: "\<not> list_ex gainsFocus cs"
    have "run (calls @ Dispose n # cs) = foldl step (dispose s (hs ! n), hs) cs"
      using run_append [of "calls @ [Dispose n]" cs] r by simp
    then show "lastFocusedList (fst (run (calls @ Dispose n # cs))) = lastFocusedList s"
      using quiet_foldl_step [OF q, of "(dispose s (hs ! n), hs)"]
      by (simp add: lastFocusedList_def dispose_lastFocused)
  qed
  show ?thesis
    using r gone exact unsub keep later by blast
qed

text \<open>
  The claim where the last-focused widget 1 is disposed, and another widget is registered
  and disposed afterwards.
\<close>

theorem dispose_keeps_lastFocused_witness:
  "run [Register (1::nat) (None :: string list option) True, Register 2 None False] =
     (\<lparr>lists = [\<lparr>entry_id = 0, widget = 1, extraContextKeys = None\<rparr>,
                \<lparr>entry_id = 1, widget = 2, extraContextKeys = None\<rparr>],
       lastFocusedWidget = Some 1, focusListeners = [(0, 1), (1, 2)], allocated = 2\<rparr>,
      [\<lparr>entry_id = 0, widget = 1, extraContextKeys = None\<rparr>,
       \<lparr>entry_id = 1, widget = 2, extraContextKeys = None\<rparr>]) \<and>
   lists (fst (run [Register (1::nat) (None :: string list option) True, Register 2 None False, Dispose 0])) =
     [\<lparr>entry_id = 1, widget = 2, extraContextKeys = None\<rparr>] \<and>
   focusListeners (fst (run [Register (1::nat) (None :: string list option) True, Register 2 None False, Dispose 0])) =
     [(1, 2)] \<and>
   lastFocusedList (fst (run [Register (1::nat) (None :: string list option) True, Register 2 None False, Dispose 0])) =
     Some 1 \<and>
   lastFocusedList (fst (run [Register (1::nat) (None :: string list option) True, Register 2 None False, Dispose 0,
       Register 3 None False, Dispose 1])) = Some 1"
proof -
  let ?e0 = "\<lparr>entry_id = 0, widget = 1::nat, extraContextKeys = None :: string list option\<rparr>"
  let ?e1 = "\<lparr>entry_id = 1, widget = 2::nat, extraContextKeys = None :: string list option\<rparr>"
  let ?s = "\<lparr>lists = [?e0, ?e1], lastFocusedWidget = Some 1,
             focusListeners = [(0, 1), (1, 2)], allocated = 2\<rparr>"
  have r: "run [Register (1::nat) (None :: string list option) True, Register 2 None False] = (?s, [?e0, ?e1])"
    by (simp add: run_def register_def newListService_def Let_def)
  have n: "0 < length [?e0, ?e1]" by simp
  have q: "\<not> list_ex gainsFocus [Register (3::nat) (None :: string list option) False, Dispose 1]"
    by simp
  have d: "dispose ?s ?e0 = \<lparr>lists = [?e1], lastFocusedWidget = Some 1,
             focusListeners = [(1, 2)], allocated = 2\<rparr>"
    by (simp add: dispose_def splice_def Let_def)
  show ?thesis
    using dispose_keeps_lastFocused [OF r n, of "[Register 3 None False, Dispose 1]"] r q d
    by (simp add: lastFocusedList_def)
qed

text \<open>
  A remark on the disposable: when it is invoked a second time its
  entry is gone, \<open>indexOf\<close> returns \<open>-1\<close> and \<open>splice(-1, 1)\<close> removes the
  last entry of the registry, here the entry of widget 2, whose focus subscription stays.
\<close>

lemma dispose_twice_removes_last_entry:
  "lists (fst (run [Register (1::nat) (None :: string list option) False, Register 2 None False,
      Dispose 0, Dispose 0])) = [] \<and>
   focusListeners (fst (run [Register (1::nat) (None :: string list option) False, Register 2 None False,
      Dispose 0, Dispose 0])) = [(1, 2)]"
  by (simp add: run_def register_def dispose_def splice_def newListService_def Let_def)

section \<open>Properties of the modifier policy and the controllers\<close>

text \<open>
  Claim C4. The multi-select-modifier query is true exactly when the value of
  \<open>workbench.list.multiSelectModifier\<close> is the string \<open>alt\<close>, and is false
  under the registered default \<open>ctrlCmd\<close>; the single-click-to-open query is true
  exactly when the value of \<open>workbench.list.openMode\<close> is not the string
  \<open>doubleClick\<close>, and is true under the registered default \<open>singleClick\<close>.
  Both queries are functions of the configuration alone: they return a boolean and no
  state, and each depends on nothing but the value of its own setting.
\<close>

theorem modifier_policy_queries:
  "useAltAsMultipleSelectionModifier configurationService =
     (getValue configurationService ''workbench.list.multiSelectModifier'' = JString ''alt'') \<and>
   useSingleClickToOpen configurationService =
     (getValue configurationService ''workbench.list.openMode'' \<noteq> JString ''doubleClick'') \<and>
   getValue (configurationOf []) ''workbench.list.multiSelectModifier'' = JString ''ctrlCmd'' \<and>
   \<not> useAltAsMultipleSelectionModifier (configurationOf []) \<and>
   getValue (configurationOf []) ''workbench.list.openMode'' = JString ''singleClick'' \<and>
   useSingleClickToOpen (configurationOf []) \<and>
   (getValue configurationService multiSelectModifierSettingKey =
      getValue configurationService' multiSelectModifierSettingKey \<longrightarrow>
        useAltAsMultipleSelectionModifier configurationService =
        useAltAsMultipleSelectionModifier configurationService') \<and>
   (getValue configurationService openModeSettingKey =
      getValue configurationService' openModeSettingKey \<longrightarrow>
        useSingleClickToOpen configurationService = useSingleClickToOpen configurationService')"
  by (simp add: useAltAsMultipleSelectionModifier_def useSingleClickToOpen_def
      multiSelectModifierSettingKey_def openModeSettingKey_def configurationOf_def
      registeredDefaults_def)

text \<open>
  The queries under a configuration with \<open>alt\<close>, and under one with \<open>doubleClick\<close>.
\<close>

theorem modifier_policy_queries_witness:
  "useAltAsMultipleSelectionModifier altConfiguration \<and>
   useSingleClickToOpen altConfiguration \<and>
   \<not> useAltAsMultipleSelectionModifier doubleClickConfiguration \<and>
   \<not> useSingleClickToOpen doubleClickConfiguration \<and>
   getValue altConfiguration openModeSettingKey = getValue (configurationOf []) openModeSettingKey \<and>
   getValue doubleClickConfiguration multiSelectModifierSettingKey =
     getValue (configurationOf []) multiSelectModifierSettingKey"
proof -
  have a: "getValue altConfiguration ''workbench.list.multiSelectModifier'' = JString ''alt''"
    "getValue altConfiguration openModeSettingKey = getValue (configurationOf []) openModeSettingKey"
    by (simp_all add: altConfiguration_def configurationOf_def openModeSettingKey_def)
  have d: "getValue doubleClickConfiguration ''workbench.list.openMode'' = JString ''doubleClick''"
    "getValue doubleClickConfiguration multiSelectModifierSettingKey =
       getValue (configurationOf []) multiSelectModifierSettingKey"
    by (simp_all add: doubleClickConfiguration_def configurationOf_def multiSelectModifierSettingKey_def)
  show ?thesis
    using a d
      modifier_policy_queries [of altConfiguration "configurationOf []"]
      modifier_policy_queries [of doubleClickConfiguration "configurationOf []"]
    by (simp add: multiSelectModifierSettingKey_def openModeSettingKey_def)
qed

text \<open>
  Claim C3. \<open>shouldOpen\<close> accepts every event that is no mouse event. It accepts a
  mouse event exactly when single-click-to-open is active or the click count is 2: a
  double-click is accepted under every configuration, and with \<open>openMode\<close> set to
  \<open>doubleClick\<close> a mouse event with another click count, a single click among them,
  is rejected.
\<close>

theorem shouldOpen_gate:
  "(\<not> instanceofMouseEvent event \<longrightarrow> shouldOpen configurationService event) \<and>
   (instanceofMouseEvent event \<longrightarrow>
      shouldOpen configurationService event =
        (useSingleClickToOpen configurationService \<or> detail event = 2)) \<and>
   (detail event = 2 \<longrightarrow> shouldOpen configurationService event) \<and>
   (instanceofMouseEvent event \<and> detail event \<noteq> 2 \<and>
      getValue configurationService openModeSettingKey = JString ''doubleClick'' \<longrightarrow>
        \<not> shouldOpen configurationService event)"
  by (simp add: shouldOpen_def useSingleClickToOpen_def Let_def)

text \<open>
  A key press, a double-click and a single click under \<open>doubleClick\<close>, and a single click under the defaults.
\<close>

theorem shouldOpen_gate_witness:
  "\<not> instanceofMouseEvent keyPress \<and> shouldOpen doubleClickConfiguration keyPress \<and>
   instanceofMouseEvent (mouseClick 2) \<and> detail (mouseClick 2) = 2 \<and>
   \<not> useSingleClickToOpen doubleClickConfiguration \<and>
   shouldOpen doubleClickConfiguration (mouseClick 2) \<and>
   instanceofMouseEvent (mouseClick 1) \<and> detail (mouseClick 1) \<noteq> 2 \<and>
   getValue doubleClickConfiguration openModeSettingKey = JString ''doubleClick'' \<and>
   \<not> shouldOpen doubleClickConfiguration (mouseClick 1) \<and>
   shouldOpen (configurationOf []) (mouseClick 1)"
proof -
  have k: "\<not> instanceofMouseEvent keyPress"
    by (simp add: keyPress_def)
  have m: "instanceofMouseEvent (mouseClick 2)" "detail (mouseClick 2) = 2"
    "instanceofMouseEvent (mouseClick 1)" "detail (mouseClick 1) \<noteq> 2"
    by (simp_all add: mouseClick_def)
  have c: "getValue doubleClickConfiguration openModeSettingKey = JString ''doubleClick''"
    by (simp add: doubleClickConfiguration_def configurationOf_def openModeSettingKey_def)
  have d: "useSingleClickToOpen (configurationOf [])"
    by (simp add: useSingleClickToOpen_def configurationOf_def openModeSettingKey_def registeredDefaults_def)
  show ?thesis
    using k m c d
      shouldOpen_gate [of keyPress doubleClickConfiguration]
      shouldOpen_gate [of "mouseClick 2" doubleClickConfiguration]
      shouldOpen_gate [of "mouseClick 1" doubleClickConfiguration]
      shouldOpen_gate [of "mouseClick 1" "configurationOf []"]
    by (simp add: useSingleClickToOpen_def)
qed

text \<open>
  Claim C10. \<open>handleListControllers\<close> always sets \<open>openController\<close> to an
  \<open>OpenController\<close> over the given configuration service, whatever the caller had
  supplied there. It sets \<open>multipleSelectionController\<close> to a
  \<open>MultipleSelectionController\<close> over that service exactly when
  \<open>multipleSelectionSupport\<close> is \<open>true\<close> and no controller was supplied, and
  leaves the field as it was otherwise. All other fields are returned unchanged.
\<close>

theorem handleListControllers_fields:
  "openController (handleListControllers options configurationService) =
     Some (OpenController configurationService) \<and>
   (multipleSelectionSupport options = Some True \<and> multipleSelectionController options = None \<longrightarrow>
      multipleSelectionController (handleListControllers options configurationService) =
        Some (MultipleSelectionController configurationService)) \<and>
   (multipleSelectionSupport options \<noteq> Some True \<or> multipleSelectionController options \<noteq> None \<longrightarrow>
      multipleSelectionController (handleListControllers options configurationService) =
        multipleSelectionController options) \<and>
   multipleSelectionSupport (handleListControllers options configurationService) =
     multipleSelectionSupport options \<and>
   IListOptions.more (handleListControllers options configurationService) = IListOptions.more options"
  by (simp add: handleListControllers_def Let_def)

text \<open>
  Options with a supplied open controller, and options with a supplied multiple-selection controller.
\<close>

theorem handleListControllers_fields_witness:
  "multipleSelectionSupport callerOptions = Some True \<and>
   multipleSelectionController callerOptions = None \<and>
   openController callerOptions = Some (SuppliedOpenController ''callerOpenController'') \<and>
   handleListControllers callerOptions (configurationOf []) =
     \<lparr>multipleSelectionSupport = Some True,
      multipleSelectionController = Some (MultipleSelectionController (configurationOf [])),
      openController = Some (OpenController (configurationOf [])),
      \<dots> = ''ariaLabel''\<rparr> \<and>
   multipleSelectionController callerOptionsWithController \<noteq> None \<and>
   handleListControllers callerOptionsWithController (configurationOf []) =
     \<lparr>multipleSelectionSupport = Some True,
      multipleSelectionController = Some (SuppliedMultipleSelectionController ''callerController''),
      openController = Some (OpenController (configurationOf [])),
      \<dots> = ''ariaLabel''\<rparr>"
proof -
  have a: "multipleSelectionSupport callerOptions = Some True"
    "multipleSelectionController callerOptions = None"
    "openController callerOptions = Some (SuppliedOpenController ''callerOpenController'')"
    "IListOptions.more callerOptions = ''ariaLabel''"
    by (simp_all add: callerOptions_def)
  have b: "multipleSelectionSupport callerOptionsWithController = Some True"
    "multipleSelectionController callerOptionsWithController =
       Some (SuppliedMultipleSelectionController ''callerController'')"
    "IListOptions.more callerOptionsWithController = ''ariaLabel''"
    by (simp_all add: callerOptionsWithController_def)
  have e: "\<And>r :: (string, string, string) IListOptions_scheme.
     r = \<lparr>multipleSelectionSupport = multipleSelectionSupport r,
          multipleSelectionController = multipleSelectionController r,
          openController = openController r, \<dots> = IListOptions.more r\<rparr>"
    by simp
  show ?thesis
    using a b
      handleListControllers_fields [of callerOptions "configurationOf []"]
      handleListControllers_fields [of callerOptionsWithController "configurationOf []"]
      e [of "handleListControllers callerOptions (configurationOf [])"]
      e [of "handleListControllers callerOptionsWithController (configurationOf [])"]
    by simp
qed

section \<open>Properties of the workbench wrappers\<close>

text \<open>
  Claim C8, as stated, fails. It asks of every notification that affects
  \<open>workbench.list.openMode\<close> that the cached alt-as-multi-select field be left
  untouched. A notification may affect both settings; the listener tests the two keys one
  after the other and then refreshes both fields. Here the user has changed both settings
  since the tree was constructed under the defaults, and the cached alt-as-multi-select
  field changes.
\<close>

theorem config_change_both_keys_counterexample:
  "affectsConfiguration (settingsChanged [openModeSettingKey, multiSelectModifierSettingKey]) openModeSettingKey \<and>
   useAltAsMultipleSelectionModifier_cached
     (WorkbenchTree_onDidChangeConfiguration altAndDoubleClickConfiguration
        (settingsChanged [openModeSettingKey, multiSelectModifierSettingKey]) defaultTree)
   \<noteq> useAltAsMultipleSelectionModifier_cached defaultTree"
  by (simp add: settingsChanged_def WorkbenchTree_onDidChangeConfiguration_def defaultTree_def
      WorkbenchTree_def altAndDoubleClickConfiguration_def configurationOf_def registeredDefaults_def
      useAltAsMultipleSelectionModifier_def useSingleClickToOpen_def
      openModeSettingKey_def multiSelectModifierSettingKey_def Let_def)

text \<open>
  Claim C8, amended. A notification that affects \<open>workbench.list.openMode\<close> and
  not \<open>workbench.list.multiSelectModifier\<close> recomputes exactly the cached
  open-on-single-click field; one that affects \<open>workbench.list.multiSelectModifier\<close>
  and not \<open>workbench.list.openMode\<close> recomputes exactly the cached
  alt-as-multi-select field; one that affects both recomputes both; one that affects
  neither key leaves the tree as it was. No other field of the tree changes in any case.
\<close>

theorem config_change_refreshes_affected_fields:
  "(affectsConfiguration e openModeSettingKey \<and> \<not> affectsConfiguration e multiSelectModifierSettingKey \<longrightarrow>
      WorkbenchTree_onDidChangeConfiguration configurationService e t =
        t\<lparr>openOnSingleClick := useSingleClickToOpen configurationService\<rparr>) \<and>
   (affectsConfiguration e multiSelectModifierSettingKey \<and> \<not> affectsConfiguration e openModeSettingKey \<longrightarrow>
      WorkbenchTree_onDidChangeConfiguration configurationService e t =
        t\<lparr>useAltAsMultipleSelectionModifier_cached :=
             useAltAsMultipleSelectionModifier configurationService\<rparr>) \<and>
   (affectsConfiguration e openModeSettingKey \<and> affectsConfiguration e multiSelectModifierSettingKey \<longrightarrow>
      WorkbenchTree_onDidChangeConfiguration configurationService e t =
        t\<lparr>openOnSingleClick := useSingleClickToOpen configurationService,
          useAltAsMultipleSelectionModifier_cached :=
             useAltAsMultipleSelectionModifier configurationService\<rparr>) \<and>
   (\<not> affectsConfiguration e openModeSettingKey \<and> \<not> affectsConfiguration e multiSelectModifierSettingKey \<longrightarrow>
      WorkbenchTree_onDidChangeConfiguration configurationService e t = t)"
  by (simp add: WorkbenchTree_onDidChangeConfiguration_def Let_def)

text \<open>
  Notifications for one setting, for the other, for both, and for keys that only share a
  prefix or a part with the two, on a tree built under the defaults.
\<close>

theorem config_change_refreshes_affected_fields_witness:
  "WorkbenchTree_onDidChangeConfiguration altAndDoubleClickConfiguration
     (settingsChanged [''workbench.list.openMode'']) defaultTree =
       defaultTree\<lparr>openOnSingleClick := False\<rparr> \<and>
   WorkbenchTree_onDidChangeConfiguration altAndDoubleClickConfiguration
     (settingsChanged [''workbench.list.multiSelectModifier'']) defaultTree =
       defaultTree\<lparr>useAltAsMultipleSelectionModifier_cached := True\<rparr> \<and>
   WorkbenchTree_onDidChangeConfiguration altAndDoubleClickConfiguration
     (settingsChanged [''workbench.list.openMode'', ''workbench.list.multiSelectModifier'']) defaultTree =
       defaultTree\<lparr>openOnSingleClick := False, useAltAsMultipleSelectionModifier_cached := True\<rparr> \<and>
   WorkbenchTree_onDidChangeConfiguration altAndDoubleClickConfiguration
     (settingsChanged [''workbench.list'', ''workbench.list.openModeX'', ''list.openMode'',
        ''workbench.list.multiSelect'']) defaultTree = defaultTree \<and>
   openOnSingleClick defaultTree \<and> \<not> useAltAsMultipleSelectionModifier_cached defaultTree"
proof -
  have c: "useSingleClickToOpen altAndDoubleClickConfiguration = False"
    "useAltAsMultipleSelectionModifier altAndDoubleClickConfiguration = True"
    by (simp_all add: altAndDoubleClickConfiguration_def configurationOf_def
        useAltAsMultipleSelectionModifier_def useSingleClickToOpen_def
        openModeSettingKey_def multiSelectModifierSettingKey_def)
  have t: "openOnSingleClick defaultTree" "\<not> useAltAsMultipleSelectionModifier_cached defaultTree"
    by (simp_all add: defaultTree_def WorkbenchTree_def configurationOf_def registeredDefaults_def
        useAltAsMultipleSelectionModifier_def useSingleClickToOpen_def
        openModeSettingKey_def multiSelectModifierSettingKey_def)
  show ?thesis
    using c t
      config_change_refreshes_affected_fields
        [of "settingsChanged [''workbench.list.openMode'']" altAndDoubleClickConfiguration defaultTree]
      config_change_refreshes_affected_fields
        [of "settingsChanged [''workbench.list.multiSelectModifier'']" altAndDoubleClickConfiguration defaultTree]
      config_change_refreshes_affected_fields
        [of "settingsChanged [''workbench.list.openMode'', ''workbench.list.multiSelectModifier'']"
            altAndDoubleClickConfiguration defaultTree]
      config_change_refreshes_affected_fields
        [of "settingsChanged [''workbench.list'', ''workbench.list.openModeX'', ''list.openMode'',
               ''workbench.list.multiSelect'']" altAndDoubleClickConfiguration defaultTree]
    by (simp add: settingsChanged_def openModeSettingKey_def multiSelectModifierSettingKey_def)
qed

lemma changeSelection_subscribed:
  "selectionListeners w = [SetListDoubleSelection] \<Longrightarrow>
     changeSelection w sel =
       w\<lparr>selection := sel,
         contextKeyService := (contextKeyService w)(''listDoubleSelection'' \<mapsto> length sel = 2)\<rparr>"
  by (simp add: changeSelection_def runSelectionListener_def setKey_def WorkbenchListDoubleSelection_def)

lemma changeSelection_unsubscribed:
  "selectionListeners w = [] \<Longrightarrow> changeSelection w sel = w\<lparr>selection := sel\<rparr>"
  by (simp add: changeSelection_def)

lemma changeSelection_listeners:
  "selectionListeners (changeSelection w sel) = selectionListeners w"
proof -
  have "selectionListeners (foldl (\<lambda>w' l. runSelectionListener l w') v ls) = selectionListeners v"
    for v :: "('a, 'b) Widget_scheme" and ls
    by (induction ls arbitrary: v) (simp_all add: runSelectionListener_def split: selection_listener.splits)
  then show ?thesis
    by (simp add: changeSelection_def)
qed

lemma foldl_changeSelection_listeners:
  "selectionListeners (foldl changeSelection w sels) = selectionListeners w"
  by (induction sels arbitrary: w) (simp_all add: changeSelection_listeners)

lemma foldl_changeSelection_unsubscribed:
  "selectionListeners w = [] \<Longrightarrow>
     contextKeyService (foldl changeSelection w sels) = contextKeyService w"
  by (induction sels arbitrary: w) (simp_all add: changeSelection_unsubscribed)

lemma WorkbenchList_listeners:
  "selectionListeners (WorkbenchList configurationService) = [SetListDoubleSelection]"
  by (simp add: WorkbenchList_def)

lemma WorkbenchTree_listeners:
  "selectionListeners (WorkbenchTree configurationService) = [SetListDoubleSelection]"
  by (simp add: WorkbenchTree_def)

lemma WorkbenchPagedList_listeners:
  "selectionListeners (WorkbenchPagedList configurationService) = []"
  by (simp add: WorkbenchPagedList_def)

text \<open>
  Claim C9, as stated, fails for the paged list. \<open>WorkbenchPagedList\<close> declares no
  \<open>listDoubleSelection\<close> field, binds no such context key and subscribes nothing to
  its selection-change event: after a change to a selection of two elements the flag is
  not true in its context key service.
\<close>

theorem pagedList_double_selection_counterexample:
  "length [''a'', ''b''] = 2 \<and>
   contextKeyService (changeSelection (WorkbenchPagedList (configurationOf [])) [''a'', ''b''])
     ''listDoubleSelection'' \<noteq> Some True"
  by (simp add: changeSelection_def WorkbenchPagedList_def createScopedContextKeyService_def
      bindTo_def WorkbenchListSupportsMultiSelectContextKey_def RawWorkbenchListFocusContextKey_def Let_def)

text \<open>
  Claim C9, amended. \<open>WorkbenchList\<close> and \<open>WorkbenchTree\<close> subscribe to their
  own selection-change event, and after every selection change the flag
  \<open>listDoubleSelection\<close> of their context key service is true exactly when the
  current selection has two elements. \<open>WorkbenchPagedList\<close> subscribes nothing to
  its selection-change event, holds no flag \<open>listDoubleSelection\<close>, and a selection
  change leaves its context key service as it was.
\<close>

theorem list_and_tree_double_selection:
  fixes sel :: "'a list" and sel' :: "'b option list" and sel'' :: "'c list"
  shows
  "selectionListeners (WorkbenchList configurationService :: 'a Widget) = [SetListDoubleSelection] \<and>
   contextKeyService
     (changeSelection (foldl changeSelection (WorkbenchList configurationService) sels) sel)
     ''listDoubleSelection'' = Some (length sel = 2) \<and>
   selectionListeners (WorkbenchTree configurationService :: 'b option WorkbenchTree) =
     [SetListDoubleSelection] \<and>
   contextKeyService
     (changeSelection (foldl changeSelection (WorkbenchTree configurationService) sels') sel')
     ''listDoubleSelection'' = Some (length sel' = 2) \<and>
   selectionListeners (WorkbenchPagedList configurationService :: 'c Widget) = [] \<and>
   contextKeyService
     (changeSelection (foldl changeSelection (WorkbenchPagedList configurationService) sels'') sel'')
     = contextKeyService (WorkbenchPagedList configurationService :: 'c Widget) \<and>
   contextKeyService (WorkbenchPagedList configurationService :: 'c Widget) ''listDoubleSelection'' = None"
proof -
  have l: "contextKeyService
     (changeSelection (foldl changeSelection (WorkbenchList configurationService) sels) sel)
     ''listDoubleSelection'' = Some (length sel = 2)"
    by (simp add: changeSelection_subscribed foldl_changeSelection_listeners WorkbenchList_listeners)
  have t: "contextKeyService
     (changeSelection (foldl changeSelection (WorkbenchTree configurationService) sels') sel')
     ''listDoubleSelection'' = Some (length sel' = 2)"
    by (simp add: changeSelection_subscribed foldl_changeSelection_listeners WorkbenchTree_listeners)
  have p: "contextKeyService
     (changeSelection (foldl changeSelection (WorkbenchPagedList configurationService) sels'') sel'')
     = contextKeyService (WorkbenchPagedList configurationService :: 'c Widget)"
    by (simp add: changeSelection_unsubscribed foldl_changeSelection_listeners
        foldl_changeSelection_unsubscribed WorkbenchPagedList_listeners)
  have n: "contextKeyService (WorkbenchPagedList configurationService :: 'c Widget) ''listDoubleSelection'' = None"
    by (simp add: WorkbenchPagedList_def createScopedContextKeyService_def bindTo_def
        WorkbenchListSupportsMultiSelectContextKey_def RawWorkbenchListFocusContextKey_def Let_def)
  show ?thesis
    using l t p n
    by (simp add: WorkbenchList_listeners WorkbenchTree_listeners WorkbenchPagedList_listeners)
qed

text \<open>
  Selection histories that end in two selected elements, in three, and in two on a paged list.
\<close>

theorem list_and_tree_double_selection_witness:
  "contextKeyService
     (changeSelection (foldl changeSelection (WorkbenchList (configurationOf [])) [[''a''], []]) [''a'', ''b''])
     ''listDoubleSelection'' = Some True \<and>
   contextKeyService
     (changeSelection (foldl changeSelection (WorkbenchTree (configurationOf [])) [[Some ''a'', Some ''b'']])
        [Some ''a'', Some ''b'', Some ''c''])
     ''listDoubleSelection'' = Some False \<and>
   contextKeyService
     (changeSelection (foldl changeSelection (WorkbenchPagedList (configurationOf [])) [[''a'']]) [''a'', ''b''])
     ''listDoubleSelection'' = None"
proof -
  note t = list_and_tree_double_selection
    [of "configurationOf []" "[[''a''], []]" "[''a'', ''b'']"
        "[[Some ''a'', Some ''b'']]" "[Some ''a'', Some ''b'', Some ''c'']"
        "[[''a'']]" "[''a'', ''b'']"]
  have 1: "contextKeyService
     (changeSelection (foldl changeSelection (WorkbenchList (configurationOf [])) [[''a''], []]) [''a'', ''b''])
     ''listDoubleSelection'' = Some True"
    using t by simp
  have 2: "contextKeyService
     (changeSelection (foldl changeSelection (WorkbenchTree (configurationOf [])) [[Some ''a'', Some ''b'']])
        [Some ''a'', Some ''b'', Some ''c''])
     ''listDoubleSelection'' = Some False"
    using t by simp
  have 3: "contextKeyService
     (changeSelection (foldl changeSelection (WorkbenchPagedList (configurationOf [])) [[''a'']]) [''a'', ''b''])
     ''listDoubleSelection'' = None"
    using t by simp
  show ?thesis
    using 1 2 3 by blast
qed

section \<open>Properties of the navigation adapter\<close>

lemmas vocab = carriesFromFocus_def mouseOrigin_def keyboardOrigin_def mouseDoubleClick_def
  modifierHeld_def preserveFocusInstruction_def focusEditorInstruction_def openGate_def
  withDefaultPrevented_def

lemma onSelection_fromFocus: "carriesFromFocus eventPayload \<Longrightarrow> onSelection nav eventPayload = nav"
  by (simp add: onSelection_def carriesFromFocus_def truthy_def split: option.splits)

lemma onSelection_open:
  assumes "\<not> carriesFromFocus eventPayload" and "openGate (tree nav) eventPayload"
  shows "onSelection nav eventPayload =
     nav\<lparr>openResource := openResource nav @
       [\<lparr>editorOptions =
           \<lparr>preserveFocus =
               (\<not> ((keyboardOrigin eventPayload \<and> \<not> preserveFocusInstruction eventPayload) \<or>
                    mouseDoubleClick eventPayload \<or> focusEditorInstruction eventPayload)),
            pinned =
               (case eventPayload of
                  None \<Rightarrow> None
                | Some p \<Rightarrow>
                    (if origin p = Some ''mouse''
                     then map_option (\<lambda>ev. detail ev = 2) (originalEvent p)
                     else Some False)),
            revealIfVisible = True\<rparr>,
         sideBySide =
           (case eventPayload of
              None \<Rightarrow> None
            | Some p \<Rightarrow> map_option (\<lambda>ev. ctrlKey ev \<or> metaKey ev \<or> altKey ev) (originalEvent p)),
         element = index0 (selection (tree nav)),
         payload = (if mouseDoubleClick eventPayload then withDefaultPrevented eventPayload else eventPayload)\<rparr>]\<rparr>"
proof (cases eventPayload)
  case None
  then show ?thesis
    using assms by (simp add: onSelection_def vocab truthy_def Let_def)
next
  case (Some p)
  show ?thesis
  proof (cases "originalEvent p")
    case None
    then show ?thesis
      using assms Some by (simp add: onSelection_def vocab truthy_def Let_def)
  next
    case (Some ev)
    then show ?thesis
      using assms \<open>eventPayload = Some p\<close>
      by (auto simp: onSelection_def vocab truthy_def Let_def)
  qed
qed

lemma onSelection_closed:
  "\<not> openGate (tree nav) eventPayload \<Longrightarrow> onSelection nav eventPayload = nav"
  by (auto simp: onSelection_def vocab truthy_def Let_def split: option.splits)

lemma foldl_runSelectionListener_tree:
  fixes t :: "'e WorkbenchTree"
  shows "selection (foldl (\<lambda>w' l. runSelectionListener l w') t ls) = selection t \<and>
    focus (foldl (\<lambda>w' l. runSelectionListener l w') t ls) = focus t \<and>
    openOnSingleClick (foldl (\<lambda>w' l. runSelectionListener l w') t ls) = openOnSingleClick t"
  by (induction ls arbitrary: t)
    (simp_all add: runSelectionListener_def split: selection_listener.splits)

lemma changeSelection_tree:
  fixes t :: "'e WorkbenchTree"
  shows "selection (changeSelection t sel) = sel \<and> focus (changeSelection t sel) = focus t \<and>
    openOnSingleClick (changeSelection t sel) = openOnSingleClick t"
  by (simp add: changeSelection_def foldl_runSelectionListener_tree)

lemma setSelection_fromFocus:
  "setSelection nav elements (Some fromFocusPayload) =
     nav\<lparr>tree := changeSelection (tree nav) elements,
         selectionEvents := selectionEvents nav @ [(elements, Some fromFocusPayload)]\<rparr>"
  by (simp add: setSelection_def onSelection_fromFocus carriesFromFocus_def fromFocusPayload_def)

lemma onFocus_result:
  "onFocus nav eventPayload =
     (let nav1 = nav\<lparr>tree := changeSelection (tree nav) [focus (tree nav)],
                     selectionEvents := selectionEvents nav @ [([focus (tree nav)], Some fromFocusPayload)]\<rparr>
      in if openGate (tree nav) eventPayload
         then nav1\<lparr>openResource := openResource nav @
                [\<lparr>editorOptions = \<lparr>preserveFocus = True, pinned = Some False, revealIfVisible = True\<rparr>,
                  sideBySide = Some False,
                  element = Some (focus (tree nav)),
                  payload = eventPayload\<rparr>]\<rparr>
         else nav1)"
proof (cases eventPayload)
  case None
  then show ?thesis
    by (simp add: onFocus_def setSelection_fromFocus vocab truthy_def Let_def changeSelection_tree)
next
  case (Some p)
  then show ?thesis
    by (cases "originalEvent p")
      (auto simp: onFocus_def setSelection_fromFocus vocab truthy_def Let_def changeSelection_tree)
qed

lemma exampleTree_fields:
  "selection (exampleTree configurationService) = [Some ''a.ts'', Some ''b.ts''] \<and>
   focus (exampleTree configurationService) = Some ''b.ts'' \<and>
   openOnSingleClick (exampleTree configurationService) = useSingleClickToOpen configurationService"
  by (simp add: exampleTree_def changeSelection_tree WorkbenchTree_def)

lemma doubleClickConfiguration_policy: "\<not> useSingleClickToOpen doubleClickConfiguration"
  by (simp add: doubleClickConfiguration_def useSingleClickToOpen_def configurationOf_def openModeSettingKey_def)

lemma default_policy: "useSingleClickToOpen (configurationOf [])"
  by (simp add: useSingleClickToOpen_def configurationOf_def openModeSettingKey_def registeredDefaults_def)

text \<open>
  Claim C1. A selection-change event without the from-focus marker that passes the open
  gate (no mouse origin, or open-on-single-click active, or a mouse double-click) makes
  the adapter fire exactly one open event and change nothing else. Its \<open>pinned\<close>
  flag is \<open>true\<close> exactly for a mouse double-click, and then the payload it carries
  has the default action of the originating event prevented (otherwise the payload is as
  delivered). Its \<open>sideBySide\<close> flag is \<open>true\<close> exactly when ctrl, meta or alt
  was held on the originating event. Its \<open>preserveFocus\<close> flag is \<open>false\<close>
  exactly when the event came from the keyboard without a preserve-focus instruction, or
  was a double-click, or carried a focus-editor instruction. Its element is
  \<open>getSelection()[0]\<close>, the first selected element.
\<close>

theorem onSelection_emits_open_intent:
  assumes "\<not> carriesFromFocus eventPayload" and "openGate (tree nav) eventPayload"
  shows "\<exists>intent.
     onSelection nav eventPayload = nav\<lparr>openResource := openResource nav @ [intent]\<rparr> \<and>
     (pinned (editorOptions intent) = Some True) = mouseDoubleClick eventPayload \<and>
     payload intent =
       (if mouseDoubleClick eventPayload then withDefaultPrevented eventPayload else eventPayload) \<and>
     (sideBySide intent = Some True) = modifierHeld eventPayload \<and>
     (preserveFocus (editorOptions intent) = False) =
       ((keyboardOrigin eventPayload \<and> \<not> preserveFocusInstruction eventPayload) \<or>
        mouseDoubleClick eventPayload \<or> focusEditorInstruction eventPayload) \<and>
     revealIfVisible (editorOptions intent) \<and>
     element intent = index0 (selection (tree nav)) \<and>
     (selection (tree nav) \<noteq> [] \<longrightarrow> element intent = Some (hd (selection (tree nav))))"
proof -
  have pin: "((case eventPayload of
                  None \<Rightarrow> None
                | Some p \<Rightarrow>
                    (if origin p = Some ''mouse''
                     then map_option (\<lambda>ev. detail ev = 2) (originalEvent p)
                     else Some False)) = Some True) = mouseDoubleClick eventPayload"
    by (auto simp: mouseDoubleClick_def split: option.splits)
  have side: "((case eventPayload of
              None \<Rightarrow> None
            | Some p \<Rightarrow> map_option (\<lambda>ev. ctrlKey ev \<or> metaKey ev \<or> altKey ev) (originalEvent p))
           = Some True) = modifierHeld eventPayload"
    by (auto simp: modifierHeld_def split: option.splits)
  have el: "selection (tree nav) \<noteq> [] \<longrightarrow>
      index0 (selection (tree nav)) = Some (hd (selection (tree nav)))"
    by (simp add: index0_def split: list.splits)
  show ?thesis
    unfolding onSelection_open [OF assms]
    using pin side el by (intro exI conjI) (rule refl, simp_all)
qed

text \<open>
  A double-click with ctrl held while open-on-single-click is off, and a keyboard event
  without instructions.
\<close>

theorem onSelection_emits_open_intent_witness:
  "\<not> carriesFromFocus (Some (mousePayload 2 True)) \<and>
   openGate (tree (exampleNavigation doubleClickConfiguration)) (Some (mousePayload 2 True)) \<and>
   (\<exists>intent.
      onSelection (exampleNavigation doubleClickConfiguration) (Some (mousePayload 2 True)) =
        (exampleNavigation doubleClickConfiguration)\<lparr>openResource := [intent]\<rparr> \<and>
      pinned (editorOptions intent) = Some True \<and>
      sideBySide intent = Some True \<and>
      preserveFocus (editorOptions intent) = False \<and>
      element intent = Some (Some ''a.ts'') \<and>
      payload intent =
        Some ((mousePayload 2 True)\<lparr>originalEvent :=
          Some \<lparr>instanceofMouseEvent = True, detail = 2, ctrlKey = True,
            metaKey = False, altKey = False, defaultPrevented = True\<rparr>\<rparr>)) \<and>
   \<not> carriesFromFocus (Some keyboardPayload) \<and>
   openGate (tree (exampleNavigation doubleClickConfiguration)) (Some keyboardPayload) \<and>
   (\<exists>intent.
      onSelection (exampleNavigation doubleClickConfiguration) (Some keyboardPayload) =
        (exampleNavigation doubleClickConfiguration)\<lparr>openResource := [intent]\<rparr> \<and>
      pinned (editorOptions intent) \<noteq> Some True \<and>
      sideBySide intent \<noteq> Some True \<and>
      preserveFocus (editorOptions intent) = False \<and>
      payload intent = Some keyboardPayload)"
proof -
  have m: "\<not> carriesFromFocus (Some (mousePayload 2 True))"
    "mouseDoubleClick (Some (mousePayload 2 True))"
    "modifierHeld (Some (mousePayload 2 True))"
    "withDefaultPrevented (Some (mousePayload 2 True)) =
       Some ((mousePayload 2 True)\<lparr>originalEvent :=
          Some \<lparr>instanceofMouseEvent = True, detail = 2, ctrlKey = True,
            metaKey = False, altKey = False, defaultPrevented = True\<rparr>\<rparr>)"
    by (simp_all add: vocab mousePayload_def preventDefault_def)
  have k: "\<not> carriesFromFocus (Some keyboardPayload)"
    "\<not> mouseOrigin (Some keyboardPayload)" "\<not> mouseDoubleClick (Some keyboardPayload)"
    "\<not> modifierHeld (Some keyboardPayload)" "keyboardOrigin (Some keyboardPayload)"
    "\<not> preserveFocusInstruction (Some keyboardPayload)"
    by (simp_all add: vocab keyboardPayload_def)
  have g: "openGate (tree (exampleNavigation doubleClickConfiguration)) (Some (mousePayload 2 True))"
    "openGate (tree (exampleNavigation doubleClickConfiguration)) (Some keyboardPayload)"
    using m(2) k(2) by (simp_all add: openGate_def)
  have n: "selection (tree (exampleNavigation doubleClickConfiguration)) = [Some ''a.ts'', Some ''b.ts'']"
    "openResource (exampleNavigation doubleClickConfiguration) = []"
    by (simp_all add: exampleNavigation_def exampleTree_fields)
  show ?thesis
    using m k g n
      onSelection_emits_open_intent [OF m(1) g(1)]
      onSelection_emits_open_intent [OF k(1) g(2)]
    by (simp add: index0_def) blast
qed

text \<open>
  Claim C2. Handling a focus-change event makes the focused element the only selected
  element, through a selection change whose payload carries the from-focus marker. A
  selection-change event whose payload carries that marker never makes the adapter fire.
  When the focus event has no mouse origin, or open-on-single-click is active, or it is a
  mouse double-click, exactly one open event is fired, with \<open>preserveFocus\<close> true,
  \<open>pinned\<close> false, \<open>revealIfVisible\<close> true and \<open>sideBySide\<close> false,
  for the focused element; otherwise none is fired. So the handling of one focus event,
  the selection change it raises included, fires at most one open event.
\<close>

theorem onFocus_selects_and_opens_once:
  "selection (tree (onFocus nav eventPayload)) = [focus (tree nav)] \<and>
   selectionEvents (onFocus nav eventPayload) =
     selectionEvents nav @ [([focus (tree nav)], Some fromFocusPayload)] \<and>
   carriesFromFocus (Some fromFocusPayload) \<and>
   (carriesFromFocus eventPayload' \<longrightarrow> onSelection nav' eventPayload' = nav') \<and>
   (openGate (tree nav) eventPayload \<longrightarrow>
      openResource (onFocus nav eventPayload) =
        openResource nav @
          [\<lparr>editorOptions = \<lparr>preserveFocus = True, pinned = Some False, revealIfVisible = True\<rparr>,
            sideBySide = Some False,
            element = Some (focus (tree nav)),
            payload = eventPayload\<rparr>]) \<and>
   (\<not> openGate (tree nav) eventPayload \<longrightarrow>
      openResource (onFocus nav eventPayload) = openResource nav) \<and>
   length (openResource (onFocus nav eventPayload)) \<le> Suc (length (openResource nav))"
  by (simp add: onFocus_result Let_def changeSelection_tree onSelection_fromFocus
      carriesFromFocus_def fromFocusPayload_def)

text \<open>
  A single mouse click under the defaults, a selection change that carries the marker,
  and a single mouse click while open-on-single-click is off.
\<close>

theorem onFocus_selects_and_opens_once_witness:
  "openGate (tree (exampleNavigation (configurationOf []))) (Some (mousePayload 1 False)) \<and>
   openResource (onFocus (exampleNavigation (configurationOf [])) (Some (mousePayload 1 False))) =
     [\<lparr>editorOptions = \<lparr>preserveFocus = True, pinned = Some False, revealIfVisible = True\<rparr>,
       sideBySide = Some False,
       element = Some (Some ''b.ts''),
       payload = Some (mousePayload 1 False)\<rparr>] \<and>
   selection (tree (onFocus (exampleNavigation (configurationOf [])) (Some (mousePayload 1 False)))) =
     [Some ''b.ts''] \<and>
   selectionEvents (onFocus (exampleNavigation (configurationOf [])) (Some (mousePayload 1 False))) =
     [([Some ''b.ts''], Some fromFocusPayload)] \<and>
   carriesFromFocus (Some (keyboardPayload\<lparr>fromFocus := Some True\<rparr>)) \<and>
   onSelection (exampleNavigation (configurationOf [])) (Some (keyboardPayload\<lparr>fromFocus := Some True\<rparr>)) =
     exampleNavigation (configurationOf []) \<and>
   \<not> openGate (tree (exampleNavigation doubleClickConfiguration)) (Some (mousePayload 1 False)) \<and>
   openResource (onFocus (exampleNavigation doubleClickConfiguration) (Some (mousePayload 1 False))) = []"
proof -
  have g: "openGate (tree (exampleNavigation (configurationOf []))) (Some (mousePayload 1 False))"
    "\<not> openGate (tree (exampleNavigation doubleClickConfiguration)) (Some (mousePayload 1 False))"
    by (simp_all add: vocab mousePayload_def exampleNavigation_def exampleTree_fields
        default_policy doubleClickConfiguration_policy)
  have c: "carriesFromFocus (Some (keyboardPayload\<lparr>fromFocus := Some True\<rparr>))"
    by (simp add: carriesFromFocus_def)
  have n: "focus (tree (exampleNavigation (configurationOf []))) = Some ''b.ts''"
    "openResource (exampleNavigation (configurationOf [])) = []"
    "selectionEvents (exampleNavigation (configurationOf [])) = []"
    "openResource (exampleNavigation doubleClickConfiguration) = []"
    by (simp_all add: exampleNavigation_def exampleTree_fields)
  show ?thesis
    using g c n
      onFocus_selects_and_opens_once
        [of "exampleNavigation (configurationOf [])" "Some (mousePayload 1 False)"
            "Some (keyboardPayload\<lparr>fromFocus := Some True\<rparr>)" "exampleNavigation (configurationOf [])"]
      onFocus_selects_and_opens_once
        [of "exampleNavigation doubleClickConfiguration" "Some (mousePayload 1 False)"
            "Some (keyboardPayload\<lparr>fromFocus := Some True\<rparr>)" "exampleNavigation doubleClickConfiguration"]
    by simp
qed

end
